theory Spec2Isabelle
  imports Main "HOL-Library.Word"
begin

unbundle bit_operations_syntax

section \<open>Data model of the operation record (src/yb/tablet/operations/operation.cc)\<close>

type_synonym int64 = "64 word"
type_synonym uint64 = "64 word"
type_synonym byte = "8 word"

text \<open>A hybrid time is carried as its 64-bit representation (\<open>ToUint64\<close>).

  Modelled from the spec: the header declaring \<open>HybridTime\<close> is not among the sources.
  The spec's data model says that unset is a state distinct from any assigned value; the
  unset state is the reserved representation \<open>kInvalidHybridTimeValue\<close> (all bits set),
  and \<open>is_valid\<close> tests for it.\<close>

type_synonym HybridTime = uint64

definition kInvalidHybridTimeValue :: HybridTime where
  "kInvalidHybridTimeValue = - 1"

definition is_valid :: "HybridTime \<Rightarrow> bool" where
  "is_valid h = (h \<noteq> kInvalidHybridTimeValue)"

record OpId =
  opid_term :: int64
  opid_index :: int64

datatype StatusCode = kCorruption | kInvalidArgument | kIllegalState | kAborted | kRuntimeError

datatype Status = StatusOK | STATUS StatusCode string

definition ok :: "Status \<Rightarrow> bool" where
  "ok s = (s = StatusOK)"

text \<open>The outgoing replication message of a round: the four fields that
  \<open>AddedToLeader\<close> stamps. A field that was never set is \<open>None\<close>.\<close>

record ReplicateMsg =
  msg_id :: "OpId option"
  msg_committed_op_id :: "OpId option"
  msg_hybrid_time :: "uint64 option"
  msg_monotonic_counter :: "int64 option"

text \<open>A consensus round: its address (what \<open>consensus_round.get()\<close> yields), its id and
  its outgoing message.\<close>

record ConsensusRound =
  round_addr :: nat
  round_id :: OpId
  replicate_msg :: ReplicateMsg

text \<open>The owning tablet, as far as an operation consults it: its id, the answer of the
  MVCC manager to \<open>AddLeaderPending\<close>, the reading of the clock and the monotonic
  counter.\<close>

record Tablet =
  tablet_id :: string
  mvcc_AddLeaderPending :: "OpId \<Rightarrow> HybridTime"
  clock_Now :: HybridTime
  monotonic_counter :: int64

text \<open>Everything an operation does to its collaborators is recorded, in program order.\<close>

datatype event =
    MvccAddLeaderPending OpId
  | MvccAddFollowerPending HybridTime OpId
  | MvccReplicated HybridTime OpId
  | MvccAborted HybridTime OpId
  | ClockNow
  | CallUpdateRequestFromConsensusRound
  | CallAddedAsPending
  | CallRemovedFromPending
  | CallRelease
  | CallDoReplicated int64
  | CallDoAborted Status
  | CompletionCallback Status
  | LogDFatal string Status

fun is_mvcc_event :: "event \<Rightarrow> bool" where
  "is_mvcc_event (MvccAddLeaderPending _) = True"
| "is_mvcc_event (MvccAddFollowerPending _ _) = True"
| "is_mvcc_event (MvccReplicated _ _) = True"
| "is_mvcc_event (MvccAborted _ _) = True"
| "is_mvcc_event _ = False"

fun is_aborted_event :: "event \<Rightarrow> bool" where
  "is_aborted_event (MvccAborted _ _) = True"
| "is_aborted_event _ = False"


text \<open>The operation record. The virtual members of the class (\<open>use_mvcc\<close>,
  \<open>DoReplicated\<close>, \<open>DoAborted\<close>) are fields: \<open>DoReplicated\<close> yields the status it
  returns and the completion status it writes through its out-parameter. \<open>tablet_f\<close> is
  the weak pointer: \<open>None\<close> once the tablet has been destroyed. \<open>completion_clbk_f\<close>
  tells whether a callback is registered; its invocations are events. \<open>this_repr\<close> is
  the text \<open>Format\<close> prints for the address of the record. A member named \<open>x_\<close> in the
  class is the field \<open>x_f\<close> here.\<close>

record Operation =
  use_mvcc :: bool
  DoReplicated :: "int64 \<Rightarrow> Status \<times> Status"
  DoAborted :: "Status \<Rightarrow> Status"
  tablet_f :: "Tablet option"
  consensus_round_f :: "ConsensusRound option"
  consensus_round_atomic_f :: "nat option"
  hybrid_time_f :: HybridTime
  op_id_f :: OpId
  complete_f :: bool
  completion_clbk_f :: bool
  this_repr :: string
  trace :: "event list"

text \<open>How a call ends: it returns, or the process stops.

  Modelled from the spec: the logging and assertion macros are not among the sources.
  \<open>LOG(FATAL)\<close> terminates the process, \<open>DCHECK\<close> is an assertion whose violation is a
  programming defect and not a recoverable error, and dereferencing a null round pointer
  stops the program. \<open>LOG_WITH_PREFIX(DFATAL)\<close> puts \<open>LogPrefix()\<close> in front of the
  message, so it calls \<open>LogPrefix\<close>, and then records a severe diagnostic and goes on.\<close>

datatype fatal = LogFatal | DCheckFailed | NullDereference

datatype 'a outcome = Returned 'a Operation | Terminated fatal Operation

definition emit :: "event \<Rightarrow> Operation \<Rightarrow> Operation" where
  "emit e op = op\<lparr>trace := trace op @ [e]\<rparr>"

subsection \<open>Accessors\<close>

text \<open>Modelled from the spec: \<open>hybrid_time\<close>, \<open>hybrid_time_even_if_unset\<close> and \<open>op_id\<close>
  are declared in the class header, which is not among the sources; they read the field
  of the record. \<open>tablet\<close> and \<open>tablet_safe\<close> are the two functions of the source file.\<close>

definition hybrid_time :: "Operation \<Rightarrow> HybridTime" where
  "hybrid_time op = hybrid_time_f op"

definition hybrid_time_even_if_unset :: "Operation \<Rightarrow> HybridTime" where
  "hybrid_time_even_if_unset op = hybrid_time_f op"

definition op_id :: "Operation \<Rightarrow> OpId" where
  "op_id op = op_id_f op"

definition tablet :: "Operation \<Rightarrow> Tablet outcome" where
  "tablet op =
     (case tablet_f op of
        None \<Rightarrow> Terminated LogFatal op
      | Some shared_tablet \<Rightarrow> Returned shared_tablet op)"

definition tablet_safe :: "Operation \<Rightarrow> Status + Tablet" where
  "tablet_safe op =
     (case tablet_f op of
        None \<Rightarrow> Inl (STATUS kIllegalState
                 ''Tablet referenced by an operation has already been destroyed'')
      | Some shared_tablet \<Rightarrow> Inr shared_tablet)"

text \<open>\<open>LogPrefix\<close> resolves the owner through \<open>tablet\<close>, so it ends the process when the
  tablet has been destroyed.\<close>

definition log_prefix_text :: "Tablet \<Rightarrow> Operation \<Rightarrow> string" where
  "log_prefix_text t op = ''T '' @ tablet_id t @ '' '' @ this_repr op @ '': ''"

definition LogPrefix :: "Operation \<Rightarrow> string outcome" where
  "LogPrefix op =
     (case tablet op of
        Terminated f s \<Rightarrow> Terminated f s
      | Returned t s \<Rightarrow> Returned (log_prefix_text t op) s)"

subsection \<open>Kind-specific hooks with no body in the base class\<close>

definition UpdateRequestFromConsensusRound :: "Operation \<Rightarrow> Operation" where
  "UpdateRequestFromConsensusRound op = emit CallUpdateRequestFromConsensusRound op"

definition AddedAsPending :: "Operation \<Rightarrow> Operation" where
  "AddedAsPending op = emit CallAddedAsPending op"

definition RemovedFromPending :: "Operation \<Rightarrow> Operation" where
  "RemovedFromPending op = emit CallRemovedFromPending op"

definition Release :: "Operation \<Rightarrow> Operation" where
  "Release op = emit CallRelease op"

subsection \<open>Completion\<close>

text \<open>\<open>compare_exchange_strong(expected = false, true)\<close> fails exactly when the flag is
  already true, and leaves it true either way. In that case the log line is built, which
  calls \<open>LogPrefix\<close>: with the tablet destroyed the process ends there, otherwise the
  diagnostic is recorded and the function returns.\<close>

definition CompleteWithStatus :: "Status \<Rightarrow> Operation \<Rightarrow> unit outcome" where
  "CompleteWithStatus status op =
     (if complete_f op
      then (case LogPrefix op of
              Terminated f s \<Rightarrow> Terminated f s
            | Returned prefix _ \<Rightarrow> Returned () (emit (LogDFatal prefix status) op))
      else let op1 = op\<lparr>complete_f := True\<rparr>
           in Returned ()
                (if completion_clbk_f op1 then emit (CompletionCallback status) op1 else op1))"

subsection \<open>Binding and time stamps\<close>

definition set_consensus_round :: "ConsensusRound option \<Rightarrow> Operation \<Rightarrow> unit outcome" where
  "set_consensus_round consensus_round op =
     (let op1 = op\<lparr>consensus_round_f := consensus_round,
                    consensus_round_atomic_f := map_option round_addr consensus_round\<rparr>
      in case consensus_round_f op1 of
           None \<Rightarrow> Terminated NullDereference op1
         | Some r \<Rightarrow> Returned () (UpdateRequestFromConsensusRound (op1\<lparr>op_id_f := round_id r\<rparr>)))"

definition set_hybrid_time :: "HybridTime \<Rightarrow> Operation \<Rightarrow> unit outcome" where
  "set_hybrid_time ht op =
     (if is_valid (hybrid_time_f op) then Terminated DCheckFailed op
      else Returned () (op\<lparr>hybrid_time_f := ht\<rparr>))"

definition WriteHybridTime :: "Operation \<Rightarrow> HybridTime" where
  "WriteHybridTime op = hybrid_time op"

definition AddedToLeader :: "OpId \<Rightarrow> OpId \<Rightarrow> Operation \<Rightarrow> unit outcome" where
  "AddedToLeader opid committed_op_id op =
     (case tablet op of
        Terminated f s \<Rightarrow> Terminated f s
      | Returned shared_tablet _ \<Rightarrow>
          (case (if use_mvcc op
                 then (mvcc_AddLeaderPending shared_tablet opid,
                       emit (MvccAddLeaderPending opid) op)
                 else (clock_Now shared_tablet, emit ClockNow op)) of
             (ht, op1) \<Rightarrow>
               (let op2 = op1\<lparr>hybrid_time_f := ht, op_id_f := opid\<rparr>
                in case consensus_round_f op2 of
                     None \<Rightarrow> Terminated NullDereference op2
                   | Some r \<Rightarrow>
                       (case tablet op2 of
                          Terminated f s \<Rightarrow> Terminated f s
                        | Returned t _ \<Rightarrow>
                            (let m0 = replicate_msg r;
                                 m = m0\<lparr>msg_id := Some opid,
                                        msg_committed_op_id := Some committed_op_id,
                                        msg_hybrid_time := Some (hybrid_time_f op2),
                                        msg_monotonic_counter := Some (monotonic_counter t)\<rparr>;
                                 op3 = op2\<lparr>consensus_round_f := Some (r\<lparr>replicate_msg := m\<rparr>)\<rparr>
                             in Returned () (AddedAsPending op3))))))"


subsection \<open>The terminal paths\<close>

definition Aborted_bool :: "bool \<Rightarrow> Operation \<Rightarrow> unit outcome" where
  "Aborted_bool was_pending op =
     (let ht = hybrid_time_even_if_unset op;
          after_mvcc =
            (if use_mvcc op \<and> is_valid ht
             then (case tablet op of
                     Terminated f s \<Rightarrow> Terminated f s
                   | Returned _ _ \<Rightarrow> Returned () (emit (MvccAborted ht (op_id op)) op))
             else Returned () op)
      in case after_mvcc of
           Terminated f s \<Rightarrow> Terminated f s
         | Returned _ op1 \<Rightarrow>
             Returned () (if was_pending then RemovedFromPending op1 else op1))"

definition Replicated_WasPending :: "bool \<Rightarrow> Operation \<Rightarrow> unit outcome" where
  "Replicated_WasPending was_pending op =
     (let after_mvcc =
            (if use_mvcc op
             then (case tablet op of
                     Terminated f s \<Rightarrow> Terminated f s
                   | Returned _ _ \<Rightarrow>
                       Returned () (emit (MvccReplicated (hybrid_time op) (op_id op)) op))
             else Returned () op)
      in case after_mvcc of
           Terminated f s \<Rightarrow> Terminated f s
         | Returned _ op1 \<Rightarrow>
             Returned () (if was_pending then RemovedFromPending op1 else op1))"

text \<open>\<open>RETURN_NOT_OK\<close> leaves the function with the hook's status when it is not OK.\<close>

definition Replicated :: "int64 \<Rightarrow> bool \<Rightarrow> Operation \<Rightarrow> Status outcome" where
  "Replicated leader_term was_pending op =
     (let (s, complete_status) = DoReplicated op leader_term;
          op1 = emit (CallDoReplicated leader_term) op
      in if \<not> ok s then Returned s op1
         else case Replicated_WasPending was_pending op1 of
                Terminated f s' \<Rightarrow> Terminated f s'
              | Returned _ op2 \<Rightarrow>
                  (case CompleteWithStatus complete_status (Release op2) of
                     Terminated f s' \<Rightarrow> Terminated f s'
                   | Returned _ op3 \<Rightarrow> Returned StatusOK op3))"

text \<open>The verbose log line at the head of \<open>Aborted\<close> is written at verbosity 4 only,
  which is off unless asked for; it is left out.\<close>

definition Aborted :: "Status \<Rightarrow> bool \<Rightarrow> Operation \<Rightarrow> unit outcome" where
  "Aborted status was_pending op =
     (case Aborted_bool was_pending op of
        Terminated f s \<Rightarrow> Terminated f s
      | Returned _ op1 \<Rightarrow>
          let op2 = Release op1;
              op3 = emit (CallDoAborted status) op2
          in CompleteWithStatus (DoAborted op3 status) op3)"

text \<open>The events a call appended to the trace.\<close>

definition new_events :: "Operation \<Rightarrow> Operation \<Rightarrow> event list" where
  "new_events before after = drop (length (trace before)) (trace after)"

definition state_of :: "'a outcome \<Rightarrow> Operation" where
  "state_of out = (case out of Returned _ s \<Rightarrow> s | Terminated _ s \<Rightarrow> s)"

definition returns :: "'a outcome \<Rightarrow> bool" where
  "returns out = (case out of Returned _ _ \<Rightarrow> True | Terminated _ _ \<Rightarrow> False)"


section \<open>Key encoding (src/yb/docdb/doc_kv_util.h)\<close>

text \<open>Keys, strings and slices are byte sequences. Keys are compared byte by byte, a
  proper prefix sorting first.\<close>

fun bytes_less :: "byte list \<Rightarrow> byte list \<Rightarrow> bool" where
  "bytes_less [] [] = False"
| "bytes_less [] (y # ys) = True"
| "bytes_less (x # xs) [] = False"
| "bytes_less (x # xs) (y # ys) = (x < y \<or> (x = y \<and> bytes_less xs ys))"

text \<open>The value a byte sequence denotes when read most significant byte first.\<close>

fun be_to_nat :: "byte list \<Rightarrow> nat" where
  "be_to_nat [] = 0"
| "be_to_nat (b # bs) = unat b * 256 ^ length bs + be_to_nat bs"

text \<open>The \<open>n\<close> low-order bytes of a natural number, most significant first.\<close>

fun nat_be :: "nat \<Rightarrow> nat \<Rightarrow> nat list" where
  "nat_be 0 v = []"
| "nat_be (Suc n) v = (v div 256 ^ n mod 256) # nat_be n v"

subsection \<open>Fixed-width integers\<close>

text \<open>Modelled from the spec: \<open>BigEndian::Store16/32/64\<close> come from a header that is not
  among the sources. Following the spec (4.1, fixed-width unsigned integers in big-endian
  byte order) they fill the local array with the bytes of the value, the most
  significant one first.\<close>

definition BigEndian_Store16 :: "16 word \<Rightarrow> byte list" where
  "BigEndian_Store16 v = [ucast (drop_bit 8 v), ucast v]"

definition BigEndian_Store32 :: "32 word \<Rightarrow> byte list" where
  "BigEndian_Store32 v =
     [ucast (drop_bit 24 v), ucast (drop_bit 16 v), ucast (drop_bit 8 v), ucast v]"

definition BigEndian_Store64 :: "64 word \<Rightarrow> byte list" where
  "BigEndian_Store64 v =
     [ucast (drop_bit 56 v), ucast (drop_bit 48 v), ucast (drop_bit 40 v),
      ucast (drop_bit 32 v), ucast (drop_bit 24 v), ucast (drop_bit 16 v),
      ucast (drop_bit 8 v), ucast v]"

text \<open>\<open>dest->append(buf, sizeof(buf))\<close> appends the whole local array.\<close>

definition AppendUInt16ToKey :: "16 word \<Rightarrow> byte list \<Rightarrow> byte list" where
  "AppendUInt16ToKey val dest = dest @ BigEndian_Store16 val"

definition AppendUInt32ToKey :: "32 word \<Rightarrow> byte list \<Rightarrow> byte list" where
  "AppendUInt32ToKey val dest = dest @ BigEndian_Store32 val"

definition AppendUInt64ToKey :: "64 word \<Rightarrow> byte list \<Rightarrow> byte list" where
  "AppendUInt64ToKey val dest = dest @ BigEndian_Store64 val"

subsection \<open>Zero-encoded strings\<close>

text \<open>Modelled from the spec: \<open>AppendZeroEncodedStrToKey\<close>, \<open>TerminateZeroEncodedKeyStr\<close>
  and \<open>DecodeZeroEncodedStr\<close> are declared in the header, their bodies are not among the
  sources. The header comments and the spec (4.1 and 6) agree on the format: every byte
  \<open>0x00\<close> of the string becomes \<open>0x00 0x01\<close>, the terminator is \<open>0x00 0x00\<close>.\<close>

fun zero_encode :: "byte list \<Rightarrow> byte list" where
  "zero_encode [] = []"
| "zero_encode (c # cs) = (if c = 0 then [0, 1] else [c]) @ zero_encode cs"

definition AppendZeroEncodedStrToKey :: "byte list \<Rightarrow> byte list \<Rightarrow> byte list" where
  "AppendZeroEncodedStrToKey s dest = dest @ zero_encode s"

definition TerminateZeroEncodedKeyStr :: "byte list \<Rightarrow> byte list" where
  "TerminateZeroEncodedKeyStr dest = dest @ [0, 0]"

text \<open>The two inline functions of the header.\<close>

definition ZeroEncodeAndAppendStrToKey :: "byte list \<Rightarrow> byte list \<Rightarrow> byte list" where
  "ZeroEncodeAndAppendStrToKey s dest =
     TerminateZeroEncodedKeyStr (AppendZeroEncodedStrToKey s dest)"

definition ZeroEncodeStr :: "byte list \<Rightarrow> byte list" where
  "ZeroEncodeStr s = ZeroEncodeAndAppendStrToKey s []"

definition push_front ::
  "byte \<Rightarrow> Status + byte list \<times> byte list \<Rightarrow> Status + byte list \<times> byte list" where
  "push_front c r = (case r of Inl e \<Rightarrow> Inl e | Inr (v, rest) \<Rightarrow> Inr (c # v, rest))"

text \<open>Modelled from the spec: the decoder consumes a prefix of the slice, up to and
  including the terminator, and yields the decoded string and the rest of the slice. A
  lone \<open>0x00\<close> at the end and \<open>0x00\<close> followed by a byte other than \<open>0x00\<close> and \<open>0x01\<close>
  are errors. The header calls the terminator optional, so a slice that ends without one
  is consumed whole (the spec reports that case as an error; the round trip below never
  meets it).\<close>

fun DecodeZeroEncodedStr :: "byte list \<Rightarrow> Status + byte list \<times> byte list" where
  "DecodeZeroEncodedStr [] = Inr ([], [])"
| "DecodeZeroEncodedStr [c] =
     (if c = 0 then Inl (STATUS kCorruption ''Encoded string ends with only one zero'')
      else Inr ([c], []))"
| "DecodeZeroEncodedStr (c # d # rest) =
     (if c \<noteq> 0 then push_front c (DecodeZeroEncodedStr (d # rest))
      else if d = 0 then Inr ([], rest)
      else if d = 1 then push_front 0 (DecodeZeroEncodedStr rest)
      else Inl (STATUS kCorruption ''Invalid escape sequence''))"

text \<open>The overload on a whole string: the encoding must be correct and every byte
  consumed; anything else is \<open>None\<close>.\<close>

definition DecodeZeroEncodedStr_string :: "byte list \<Rightarrow> byte list option" where
  "DecodeZeroEncodedStr_string encoded_str =
     (case DecodeZeroEncodedStr encoded_str of
        Inl _ \<Rightarrow> None
      | Inr (v, rest) \<Rightarrow> if rest = [] then Some v else None)"

section \<open>Sample records\<close>

definition sample_tablet :: Tablet where
  "sample_tablet =
     \<lparr>tablet_id = ''t1'', mvcc_AddLeaderPending = (\<lambda>_. 200), clock_Now = 300,
      monotonic_counter = 7\<rparr>"

definition sample_round :: ConsensusRound where
  "sample_round =
     \<lparr>round_addr = 1,
      round_id = \<lparr>opid_term = 1, opid_index = 5\<rparr>,
      replicate_msg = \<lparr>msg_id = None, msg_committed_op_id = None,
                       msg_hybrid_time = None, msg_monotonic_counter = None\<rparr>\<rparr>"

text \<open>A record as the constructor leaves it, with a callback registered: no round, no
  time stamp, not completed.\<close>

definition sample_op :: "bool \<Rightarrow> Operation" where
  "sample_op mvcc =
     \<lparr>use_mvcc = mvcc,
      DoReplicated = (\<lambda>_. (StatusOK, StatusOK)),
      DoAborted = (\<lambda>s. s),
      tablet_f = Some sample_tablet,
      consensus_round_f = None,
      consensus_round_atomic_f = None,
      hybrid_time_f = kInvalidHybridTimeValue,
      op_id_f = \<lparr>opid_term = 0, opid_index = 0\<rparr>,
      complete_f = False,
      completion_clbk_f = True,
      this_repr = ''0x1000'',
      trace = []\<rparr>"

text \<open>The same record after \<open>set_consensus_round\<close> with the sample round.\<close>

definition bound_op :: "bool \<Rightarrow> Operation" where
  "bound_op mvcc = state_of (set_consensus_round (Some sample_round) (sample_op mvcc))"

text \<open>The bound record with the time stamp 100 set through \<open>set_hybrid_time\<close>.\<close>

definition stamped_op :: "bool \<Rightarrow> Operation" where
  "stamped_op mvcc = state_of (set_hybrid_time 100 (bound_op mvcc))"



section \<open>Facts about the trace\<close>

lemmas hook_defs = AddedAsPending_def RemovedFromPending_def Release_def
  UpdateRequestFromConsensusRound_def

lemmas accessor_defs = hybrid_time_def hybrid_time_even_if_unset_def op_id_def tablet_def
  LogPrefix_def

lemmas sample_defs = sample_tablet_def sample_round_def sample_op_def bound_op_def
  stamped_op_def set_consensus_round_def set_hybrid_time_def state_of_def returns_def
  is_valid_def kInvalidHybridTimeValue_def








section \<open>Completion is delivered once\<close>




section \<open>A failed apply hook\<close>

text \<open>C2: when the apply hook \<open>DoReplicated\<close> returns an error, \<open>Replicated\<close> returns that
  error and stops. The call of the hook is the only event: the MVCC manager is not told
  that the operation is replicated, the record is not removed from the pending ones,
  nothing is released and the callback is not invoked; the record is otherwise as it was.\<close>

theorem C2_failed_apply_stops:
  assumes "\<not> ok (fst (DoReplicated op leader_term))"
  shows "Replicated leader_term was_pending op =
           Returned (fst (DoReplicated op leader_term)) (emit (CallDoReplicated leader_term) op) \<and>
         returns (Replicated leader_term was_pending op) \<and>
         new_events op (state_of (Replicated leader_term was_pending op)) =
           [CallDoReplicated leader_term] \<and>
         complete_f (state_of (Replicated leader_term was_pending op)) = complete_f op"
  using assms
  by (auto simp add: Replicated_def state_of_def returns_def emit_def new_events_def
      split: prod.splits)

theorem C2_failed_apply_stops_witness:
  "\<not> ok (fst (DoReplicated
            (stamped_op True\<lparr>DoReplicated := \<lambda>_. (STATUS kRuntimeError ''apply'', StatusOK)\<rparr>) 1)) \<and>
   returns (Replicated 1 True
     (stamped_op True\<lparr>DoReplicated := \<lambda>_. (STATUS kRuntimeError ''apply'', StatusOK)\<rparr>)) \<and>
   new_events
     (stamped_op True\<lparr>DoReplicated := \<lambda>_. (STATUS kRuntimeError ''apply'', StatusOK)\<rparr>)
     (state_of (Replicated 1 True
        (stamped_op True\<lparr>DoReplicated := \<lambda>_. (STATUS kRuntimeError ''apply'', StatusOK)\<rparr>))) =
     [CallDoReplicated 1]"
proof -
  let ?op = "stamped_op True\<lparr>DoReplicated := \<lambda>_. (STATUS kRuntimeError ''apply'', StatusOK)\<rparr>"
  have h: "\<not> ok (fst (DoReplicated ?op 1))"
    by (simp add: ok_def)
  show ?thesis
    using h C2_failed_apply_stops [OF h, of True] by blast
qed


section \<open>Assigning the time stamp\<close>

text \<open>C3: the time stamp is to be assigned at most once, every assignment asserting that
  the field is still unset. \<open>set_hybrid_time\<close> asserts it: on the stamped sample record a
  second \<open>set_hybrid_time\<close> stops at the assertion. \<open>AddedToLeader\<close> does not: on the same
  record, whose time stamp is 100, it returns and leaves the time stamp 200.\<close>

theorem C3_AddedToLeader_overwrites:
  "is_valid (hybrid_time_f (stamped_op True)) \<and>
   hybrid_time_f (stamped_op True) = 100 \<and>
   set_hybrid_time 200 (stamped_op True) = Terminated DCheckFailed (stamped_op True) \<and>
   returns (AddedToLeader \<lparr>opid_term = 1, opid_index = 5\<rparr> \<lparr>opid_term = 1, opid_index = 4\<rparr>
              (stamped_op True)) \<and>
   hybrid_time_f
     (state_of (AddedToLeader \<lparr>opid_term = 1, opid_index = 5\<rparr> \<lparr>opid_term = 1, opid_index = 4\<rparr>
                  (stamped_op True))) = 200"
  by (simp add: sample_defs AddedToLeader_def tablet_def emit_def hook_defs)

section \<open>The leader path\<close>

text \<open>C4, as amended: for a record whose kind uses MVCC, whose tablet is alive and which
  is bound to a round, \<open>AddedToLeader\<close> called with an id and a committed id returns; the
  record's id is the given id, its time stamp is the value \<open>AddLeaderPending\<close> returned
  for that id, the round's message carries the id, the committed id, that time stamp
  and the tablet's monotonic counter, and the added-as-pending hook has run last.\<close>

theorem C4_AddedToLeader_mvcc:
  assumes "use_mvcc op" and "tablet_f op = Some t" and "consensus_round_f op = Some r"
  shows "\<exists>op' r'. AddedToLeader opid committed op = Returned () op' \<and>
           op_id_f op' = opid \<and>
           hybrid_time_f op' = mvcc_AddLeaderPending t opid \<and>
           consensus_round_f op' = Some r' \<and>
           round_id r' = round_id r \<and>
           msg_id (replicate_msg r') = Some opid \<and>
           msg_committed_op_id (replicate_msg r') = Some committed \<and>
           msg_hybrid_time (replicate_msg r') = Some (mvcc_AddLeaderPending t opid) \<and>
           msg_monotonic_counter (replicate_msg r') = Some (monotonic_counter t) \<and>
           new_events op op' = [MvccAddLeaderPending opid, CallAddedAsPending]"
  using assms
  by (simp add: AddedToLeader_def tablet_def emit_def hook_defs new_events_def Let_def)

theorem C4_AddedToLeader_mvcc_witness:
  "use_mvcc (bound_op True) \<and> tablet_f (bound_op True) = Some sample_tablet \<and>
   consensus_round_f (bound_op True) = Some sample_round \<and>
   round_id sample_round = \<lparr>opid_term = 1, opid_index = 5\<rparr> \<and>
   (\<exists>op' r'. AddedToLeader \<lparr>opid_term = 1, opid_index = 5\<rparr> \<lparr>opid_term = 1, opid_index = 4\<rparr>
               (bound_op True) = Returned () op' \<and>
      op_id_f op' = \<lparr>opid_term = 1, opid_index = 5\<rparr> \<and>
      hybrid_time_f op' = 200 \<and>
      consensus_round_f op' = Some r' \<and>
      msg_id (replicate_msg r') = Some \<lparr>opid_term = 1, opid_index = 5\<rparr> \<and>
      msg_committed_op_id (replicate_msg r') = Some \<lparr>opid_term = 1, opid_index = 4\<rparr> \<and>
      msg_hybrid_time (replicate_msg r') = Some 200 \<and>
      msg_monotonic_counter (replicate_msg r') = Some 7)"
proof -
  have h1: "use_mvcc (bound_op True)"
    and h2: "tablet_f (bound_op True) = Some sample_tablet"
    and h3: "consensus_round_f (bound_op True) = Some sample_round"
    by (simp_all add: sample_defs emit_def hook_defs)
  have v: "mvcc_AddLeaderPending sample_tablet \<lparr>opid_term = 1, opid_index = 5\<rparr> = 200"
    and c: "monotonic_counter sample_tablet = 7"
    and i: "round_id sample_round = \<lparr>opid_term = 1, opid_index = 5\<rparr>"
    by (simp_all add: sample_tablet_def sample_round_def)
  from C4_AddedToLeader_mvcc [OF h1 h2 h3, of "\<lparr>opid_term = 1, opid_index = 5\<rparr>"
      "\<lparr>opid_term = 1, opid_index = 4\<rparr>"]
  obtain op' r' where
    "AddedToLeader \<lparr>opid_term = 1, opid_index = 5\<rparr> \<lparr>opid_term = 1, opid_index = 4\<rparr>
       (bound_op True) = Returned () op'"
    "op_id_f op' = \<lparr>opid_term = 1, opid_index = 5\<rparr>"
    "hybrid_time_f op' = 200"
    "consensus_round_f op' = Some r'"
    "msg_id (replicate_msg r') = Some \<lparr>opid_term = 1, opid_index = 5\<rparr>"
    "msg_committed_op_id (replicate_msg r') = Some \<lparr>opid_term = 1, opid_index = 4\<rparr>"
    "msg_hybrid_time (replicate_msg r') = Some 200"
    "msg_monotonic_counter (replicate_msg r') = Some 7"
    unfolding v c by blast
  then show ?thesis using h1 h2 h3 i by blast
qed

text \<open>The claim as stated fails for a kind that does not use MVCC: the bound sample record
  of such a kind gets the clock's reading 300, not the 200 that \<open>AddLeaderPending\<close> would
  return for the id, and the MVCC manager is not called.\<close>

theorem C4_non_mvcc_counterexample:
  "consensus_round_f (bound_op False) = Some sample_round \<and>
   tablet_f (bound_op False) = Some sample_tablet \<and>
   returns (AddedToLeader \<lparr>opid_term = 1, opid_index = 5\<rparr> \<lparr>opid_term = 1, opid_index = 4\<rparr>
              (bound_op False)) \<and>
   hybrid_time_f
     (state_of (AddedToLeader \<lparr>opid_term = 1, opid_index = 5\<rparr> \<lparr>opid_term = 1, opid_index = 4\<rparr>
                  (bound_op False))) = 300 \<and>
   mvcc_AddLeaderPending sample_tablet \<lparr>opid_term = 1, opid_index = 5\<rparr> = 200 \<and>
   hybrid_time_f
     (state_of (AddedToLeader \<lparr>opid_term = 1, opid_index = 5\<rparr> \<lparr>opid_term = 1, opid_index = 4\<rparr>
                  (bound_op False))) \<noteq>
     mvcc_AddLeaderPending sample_tablet \<lparr>opid_term = 1, opid_index = 5\<rparr> \<and>
   filter is_mvcc_event
     (trace (state_of (AddedToLeader \<lparr>opid_term = 1, opid_index = 5\<rparr>
                         \<lparr>opid_term = 1, opid_index = 4\<rparr> (bound_op False)))) = []"
  by (simp add: sample_defs AddedToLeader_def tablet_def emit_def hook_defs)

section \<open>Abort\<close>

text \<open>C5, as amended: for a record whose kind uses MVCC, whose tablet is alive, which is
  not yet completed and has a callback registered, \<open>Aborted\<close> with \<open>was_pending\<close> true on
  an assigned time stamp returns after exactly these events, in this order: one
  \<open>Aborted\<close> notification to the MVCC manager with the record's time stamp and id, the
  removal from the pending operations, the release, the \<open>DoAborted\<close> hook and one
  invocation of the callback with the status that hook returned. On whatever record, if
  the time stamp is unset, \<open>Aborted\<close> sends no \<open>Aborted\<close> notification, and it returns
  unless the record is already completed and its tablet destroyed.\<close>

theorem C5_Aborted_pending:
  "(use_mvcc op \<and> tablet_f op \<noteq> None \<and> is_valid (hybrid_time_f op) \<and>
    \<not> complete_f op \<and> completion_clbk_f op \<longrightarrow>
      returns (Aborted st True op) \<and>
      new_events op (state_of (Aborted st True op)) =
        [MvccAborted (hybrid_time_f op) (op_id_f op), CallRemovedFromPending, CallRelease,
         CallDoAborted st, CompletionCallback (DoAborted op st)] \<and>
      complete_f (state_of (Aborted st True op))) \<and>
   (\<not> is_valid (hybrid_time_f op) \<longrightarrow>
      filter is_aborted_event (new_events op (state_of (Aborted st was_pending op))) = [] \<and>
      (\<not> complete_f op \<or> tablet_f op \<noteq> None \<longrightarrow> returns (Aborted st was_pending op)))"
  by (auto simp add: Aborted_def Aborted_bool_def emit_def hook_defs accessor_defs
      CompleteWithStatus_def new_events_def state_of_def returns_def Let_def
      split: option.splits)

theorem C5_Aborted_pending_witness:
  "use_mvcc (stamped_op True) \<and> tablet_f (stamped_op True) \<noteq> None \<and>
   is_valid (hybrid_time_f (stamped_op True)) \<and>
   \<not> complete_f (stamped_op True) \<and> completion_clbk_f (stamped_op True) \<and>
   returns (Aborted (STATUS kAborted ''lost leadership'') True (stamped_op True)) \<and>
   new_events (stamped_op True)
     (state_of (Aborted (STATUS kAborted ''lost leadership'') True (stamped_op True))) =
     [MvccAborted 100 \<lparr>opid_term = 1, opid_index = 5\<rparr>, CallRemovedFromPending, CallRelease,
      CallDoAborted (STATUS kAborted ''lost leadership''),
      CompletionCallback (STATUS kAborted ''lost leadership'')] \<and>
   \<not> is_valid (hybrid_time_f (bound_op True)) \<and>
   \<not> complete_f (bound_op True) \<and>
   returns (Aborted (STATUS kAborted ''lost leadership'') True (bound_op True)) \<and>
   filter is_aborted_event
     (new_events (bound_op True)
        (state_of (Aborted (STATUS kAborted ''lost leadership'') True (bound_op True)))) = []"
proof -
  have h: "use_mvcc (stamped_op True) \<and> tablet_f (stamped_op True) \<noteq> None \<and>
      is_valid (hybrid_time_f (stamped_op True)) \<and>
      \<not> complete_f (stamped_op True) \<and> completion_clbk_f (stamped_op True)"
    by (simp add: sample_defs emit_def hook_defs)
  have g: "\<not> is_valid (hybrid_time_f (bound_op True))" "\<not> complete_f (bound_op True)"
    by (simp_all add: sample_defs emit_def hook_defs)
  have v: "hybrid_time_f (stamped_op True) = 100"
    "op_id_f (stamped_op True) = \<lparr>opid_term = 1, opid_index = 5\<rparr>"
    "DoAborted (stamped_op True) (STATUS kAborted ''lost leadership'') =
       STATUS kAborted ''lost leadership''"
    by (simp_all add: sample_defs emit_def hook_defs)
  show ?thesis
    using h g
      C5_Aborted_pending [of "stamped_op True" "STATUS kAborted ''lost leadership''" True]
      C5_Aborted_pending [of "bound_op True" "STATUS kAborted ''lost leadership''" True]
    unfolding v by blast
qed

text \<open>The claim as stated fails for a kind that does not use MVCC: aborting the stamped
  sample record of such a kind, pending, sends no \<open>Aborted\<close> notification although its
  time stamp is assigned.\<close>

theorem C5_non_mvcc_counterexample:
  "is_valid (hybrid_time_f (stamped_op False)) \<and>
   returns (Aborted (STATUS kAborted ''lost leadership'') True (stamped_op False)) \<and>
   filter is_aborted_event
     (trace (state_of (Aborted (STATUS kAborted ''lost leadership'') True
                         (stamped_op False)))) = [] \<and>
   new_events (stamped_op False)
     (state_of (Aborted (STATUS kAborted ''lost leadership'') True (stamped_op False))) =
     [CallRemovedFromPending, CallRelease, CallDoAborted (STATUS kAborted ''lost leadership''),
      CompletionCallback (STATUS kAborted ''lost leadership'')]"
  by (simp add: sample_defs Aborted_def Aborted_bool_def emit_def hook_defs accessor_defs
      CompleteWithStatus_def new_events_def)


section \<open>Resolving the owner\<close>

text \<open>C8: resolving the owner after the tablet has been destroyed terminates the process
  through \<open>tablet\<close> and yields an IllegalState error, without terminating, through
  \<open>tablet_safe\<close>; while the tablet is alive both yield it.\<close>

theorem C8_owner_resolution:
  "(tablet_f op = None \<longrightarrow>
      tablet op = Terminated LogFatal op \<and>
      tablet_safe op =
        Inl (STATUS kIllegalState
               ''Tablet referenced by an operation has already been destroyed'')) \<and>
   (tablet_f op = Some t \<longrightarrow> tablet op = Returned t op \<and> tablet_safe op = Inr t)"
  by (simp add: tablet_def tablet_safe_def)

theorem C8_owner_resolution_witness:
  "tablet_f (sample_op True\<lparr>tablet_f := None\<rparr>) = None \<and>
   tablet (sample_op True\<lparr>tablet_f := None\<rparr>) =
     Terminated LogFatal (sample_op True\<lparr>tablet_f := None\<rparr>) \<and>
   tablet_safe (sample_op True\<lparr>tablet_f := None\<rparr>) =
     Inl (STATUS kIllegalState
            ''Tablet referenced by an operation has already been destroyed'') \<and>
   tablet_f (sample_op True) = Some sample_tablet \<and>
   tablet (sample_op True) = Returned sample_tablet (sample_op True) \<and>
   tablet_safe (sample_op True) = Inr sample_tablet"
proof -
  have dead: "tablet_f (sample_op True\<lparr>tablet_f := None\<rparr>) = None" by simp
  have alive: "tablet_f (sample_op True) = Some sample_tablet" by (simp add: sample_op_def)
  show ?thesis
    using dead alive
      C8_owner_resolution [of "sample_op True\<lparr>tablet_f := None\<rparr>" sample_tablet]
      C8_owner_resolution [of "sample_op True" sample_tablet]
    by blast
qed

section \<open>Kinds that do not use MVCC\<close>




section \<open>Facts about bytes\<close>

lemma bytes_less_append: "bytes_less (dest @ xs) (dest @ ys) = bytes_less xs ys"
  by (induction dest) simp_all

subsection \<open>Big-endian bytes of a number\<close>

lemma length_nat_be: "length (nat_be n v) = n"
  by (induction n) simp_all

lemma mod_split_byte:
  "X mod 256 ^ Suc n = (X div 256 ^ n mod 256) * 256 ^ n + X mod 256 ^ n" for X :: nat
proof -
  have "X mod (256 ^ n * 256) = 256 ^ n * (X div 256 ^ n mod 256) + X mod 256 ^ n"
    by (rule mod_mult2_eq)
  then show ?thesis by (simp add: mult.commute)
qed

lemma unat_of_nat_byte: "x < 256 \<Longrightarrow> unat (of_nat x :: byte) = x"
  by (simp add: unat_of_nat take_bit_eq_mod)

lemma be_to_nat_nat_be: "be_to_nat (map of_nat (nat_be n A)) = A mod 256 ^ n"
proof (induction n)
  case 0
  show ?case by simp
next
  case (Suc n)
  have "unat (of_nat (A div 256 ^ n mod 256) :: byte) = A div 256 ^ n mod 256"
    by (rule unat_of_nat_byte) simp
  then show ?case
    using Suc.IH by (simp only: nat_be.simps list.map be_to_nat.simps length_map
        length_nat_be mod_split_byte)
qed

lemma nat_be_less:
  "A mod 256 ^ n < B mod 256 ^ n \<Longrightarrow>
   bytes_less (map of_nat (nat_be n A)) (map of_nat (nat_be n B))"
proof (induction n)
  case 0
  then show ?case by simp
next
  case (Suc n)
  let ?a = "A div 256 ^ n mod 256" and ?b = "B div 256 ^ n mod 256"
  note splitA = mod_split_byte [of A n] and splitB = mod_split_byte [of B n]
  have lb: "B mod 256 ^ n < 256 ^ n" by simp
  have ab: "?a \<le> ?b"
  proof (rule ccontr)
    assume "\<not> ?a \<le> ?b"
    then have "?b + 1 \<le> ?a" by simp
    then have "(?b + 1) * 256 ^ n \<le> ?a * 256 ^ n" by (rule mult_le_mono1)
    then have "?b * 256 ^ n + 256 ^ n \<le> ?a * 256 ^ n" by (simp add: algebra_simps)
    then have "B mod 256 ^ Suc n < A mod 256 ^ Suc n"
      using lb unfolding splitA splitB by linarith
    with Suc.prems show False by simp
  qed
  have wa: "(of_nat ?a :: byte) < of_nat ?b \<longleftrightarrow> ?a < ?b"
    by (simp add: word_less_nat_alt unat_of_nat take_bit_eq_mod)
  show ?case
  proof (cases "?a < ?b")
    case True
    then show ?thesis using wa by simp
  next
    case False
    with ab have eq: "?a = ?b" by simp
    with Suc.prems have "A mod 256 ^ n < B mod 256 ^ n"
      unfolding splitA splitB by simp
    then show ?thesis using Suc.IH eq by simp
  qed
qed

lemma unat_drop_bit_div: "unat (drop_bit k (v :: 'a::len word)) = unat v div 2 ^ k"
  unfolding unat_drop_bit_eq by (simp add: drop_bit_eq_div)

lemma byte_of_nat_div:
  "(ucast (drop_bit k (v :: 'a::len word)) :: byte) = of_nat (unat v div 2 ^ k mod 256)"
proof (rule word_unat_eq_iff [THEN iffD2])
  have "unat (ucast (drop_bit k v) :: byte) = unat (drop_bit k v) mod 256"
    by (simp add: unsigned_ucast_eq take_bit_eq_mod)
  also have "\<dots> = unat v div 2 ^ k mod 256"
    by (simp only: unat_drop_bit_div)
  also have "\<dots> = unat (of_nat (unat v div 2 ^ k mod 256) :: byte)"
    by (simp add: unat_of_nat take_bit_eq_mod)
  finally show "unat (ucast (drop_bit k v) :: byte) =
      unat (of_nat (unat v div 2 ^ k mod 256) :: byte)" .
qed

lemma byte_of_nat: "(ucast (v :: 'a::len word) :: byte) = of_nat (unat v mod 256)"
  using byte_of_nat_div [of 0 v] by simp

lemma nat_be_numeral:
  "nat_be (numeral k) v = (v div 256 ^ pred_numeral k mod 256) # nat_be (pred_numeral k) v"
  by (metis nat_be.simps(2) numeral_eq_Suc)

lemma nat_be_1: "nat_be (Suc 0) v = [v mod 256]"
  by simp

lemma nat_be_2: "nat_be 2 v = [v div 2 ^ 8 mod 256, v mod 256]"
  by (simp add: nat_be_numeral nat_be_1)

lemma nat_be_4:
  "nat_be 4 v = [v div 2 ^ 24 mod 256, v div 2 ^ 16 mod 256, v div 2 ^ 8 mod 256, v mod 256]"
  by (simp add: nat_be_numeral nat_be_1)

lemma nat_be_8:
  "nat_be 8 v = [v div 2 ^ 56 mod 256, v div 2 ^ 48 mod 256, v div 2 ^ 40 mod 256,
     v div 2 ^ 32 mod 256, v div 2 ^ 24 mod 256, v div 2 ^ 16 mod 256,
     v div 2 ^ 8 mod 256, v mod 256]"
  by (simp add: nat_be_numeral nat_be_1)

lemma Store16_nat: "BigEndian_Store16 v = map of_nat (nat_be 2 (unat v))"
  unfolding BigEndian_Store16_def nat_be_2 list.map
  by (simp only: byte_of_nat_div byte_of_nat [of v])

lemma Store32_nat: "BigEndian_Store32 v = map of_nat (nat_be 4 (unat v))"
  unfolding BigEndian_Store32_def nat_be_4 list.map
  by (simp only: byte_of_nat_div byte_of_nat [of v])

lemma Store64_nat: "BigEndian_Store64 v = map of_nat (nat_be 8 (unat v))"
  unfolding BigEndian_Store64_def nat_be_8 list.map
  by (simp only: byte_of_nat_div byte_of_nat [of v])

lemma Store16_less: "a < b \<Longrightarrow> bytes_less (BigEndian_Store16 a) (BigEndian_Store16 b)"
proof -
  assume "a < b"
  then have ab: "unat a < unat b" by (simp only: word_less_nat_alt)
  have "unat a < 2 ^ LENGTH(16)" "unat b < 2 ^ LENGTH(16)" by (rule unsigned_less)+
  then have "unat a < 256 ^ 2" "unat b < 256 ^ 2" by simp_all
  then have "unat a mod 256 ^ 2 < unat b mod 256 ^ 2" using ab by (simp only: mod_less)
  then show ?thesis unfolding Store16_nat by (rule nat_be_less)
qed

lemma Store32_less: "a < b \<Longrightarrow> bytes_less (BigEndian_Store32 a) (BigEndian_Store32 b)"
proof -
  assume "a < b"
  then have ab: "unat a < unat b" by (simp only: word_less_nat_alt)
  have "unat a < 2 ^ LENGTH(32)" "unat b < 2 ^ LENGTH(32)" by (rule unsigned_less)+
  then have "unat a < 256 ^ 4" "unat b < 256 ^ 4" by simp_all
  then have "unat a mod 256 ^ 4 < unat b mod 256 ^ 4" using ab by (simp only: mod_less)
  then show ?thesis unfolding Store32_nat by (rule nat_be_less)
qed

lemma Store64_less: "a < b \<Longrightarrow> bytes_less (BigEndian_Store64 a) (BigEndian_Store64 b)"
proof -
  assume "a < b"
  then have ab: "unat a < unat b" by (simp only: word_less_nat_alt)
  have "unat a < 2 ^ LENGTH(64)" "unat b < 2 ^ LENGTH(64)" by (rule unsigned_less)+
  then have "unat a < 256 ^ 8" "unat b < 256 ^ 8" by simp_all
  then have "unat a mod 256 ^ 8 < unat b mod 256 ^ 8" using ab by (simp only: mod_less)
  then show ?thesis unfolding Store64_nat by (rule nat_be_less)
qed

lemma Store16_value: "be_to_nat (BigEndian_Store16 v) = unat v"
proof -
  have "unat v < 2 ^ LENGTH(16)" by (rule unsigned_less)
  then have "unat v < 256 ^ 2" by simp
  then show ?thesis unfolding Store16_nat be_to_nat_nat_be by (rule mod_less)
qed

lemma Store32_value: "be_to_nat (BigEndian_Store32 v) = unat v"
proof -
  have "unat v < 2 ^ LENGTH(32)" by (rule unsigned_less)
  then have "unat v < 256 ^ 4" by simp
  then show ?thesis unfolding Store32_nat be_to_nat_nat_be by (rule mod_less)
qed

lemma Store64_value: "be_to_nat (BigEndian_Store64 v) = unat v"
proof -
  have "unat v < 2 ^ LENGTH(64)" by (rule unsigned_less)
  then have "unat v < 256 ^ 8" by simp
  then show ?thesis unfolding Store64_nat be_to_nat_nat_be by (rule mod_less)
qed

subsection \<open>Decoding what was encoded\<close>

lemma decode_encode: "DecodeZeroEncodedStr (zero_encode s @ 0 # 0 # rest) = Inr (s, rest)"
proof (induction s)
  case Nil
  show ?case by simp
next
  case (Cons c s)
  show ?case
  proof (cases "c = 0")
    case True
    then show ?thesis using Cons.IH by (simp add: push_front_def)
  next
    case False
    obtain d ds where e: "zero_encode s @ 0 # 0 # rest = d # ds"
      by (cases "zero_encode s @ 0 # 0 # rest") auto
    show ?thesis using False Cons.IH by (simp add: e push_front_def)
  qed
qed


section \<open>Big-endian integers\<close>

text \<open>C9: \<open>AppendUInt16ToKey\<close>, \<open>AppendUInt32ToKey\<close> and \<open>AppendUInt64ToKey\<close> leave what
  the buffer held and append exactly 2, 4 and 8 bytes, the bytes of the value with the
  most significant first, so that reading them back as a big-endian number gives the
  value; and of two values of one width the smaller one yields the smaller key under
  byte-wise comparison.\<close>

theorem C9_big_endian_append:
  "(take (length dest) (AppendUInt16ToKey v16 dest) = dest \<and>
    length (AppendUInt16ToKey v16 dest) = length dest + 2 \<and>
    drop (length dest) (AppendUInt16ToKey v16 dest) = [ucast (drop_bit 8 v16), ucast v16] \<and>
    be_to_nat (drop (length dest) (AppendUInt16ToKey v16 dest)) = unat v16 \<and>
    (a16 < b16 \<longrightarrow> bytes_less (AppendUInt16ToKey a16 dest) (AppendUInt16ToKey b16 dest))) \<and>
   (take (length dest) (AppendUInt32ToKey v32 dest) = dest \<and>
    length (AppendUInt32ToKey v32 dest) = length dest + 4 \<and>
    drop (length dest) (AppendUInt32ToKey v32 dest) =
      [ucast (drop_bit 24 v32), ucast (drop_bit 16 v32), ucast (drop_bit 8 v32), ucast v32] \<and>
    be_to_nat (drop (length dest) (AppendUInt32ToKey v32 dest)) = unat v32 \<and>
    (a32 < b32 \<longrightarrow> bytes_less (AppendUInt32ToKey a32 dest) (AppendUInt32ToKey b32 dest))) \<and>
   (take (length dest) (AppendUInt64ToKey v64 dest) = dest \<and>
    length (AppendUInt64ToKey v64 dest) = length dest + 8 \<and>
    drop (length dest) (AppendUInt64ToKey v64 dest) =
      [ucast (drop_bit 56 v64), ucast (drop_bit 48 v64), ucast (drop_bit 40 v64),
       ucast (drop_bit 32 v64), ucast (drop_bit 24 v64), ucast (drop_bit 16 v64),
       ucast (drop_bit 8 v64), ucast v64] \<and>
    be_to_nat (drop (length dest) (AppendUInt64ToKey v64 dest)) = unat v64 \<and>
    (a64 < b64 \<longrightarrow> bytes_less (AppendUInt64ToKey a64 dest) (AppendUInt64ToKey b64 dest)))"
proof -
  have w16: "be_to_nat (drop (length dest) (AppendUInt16ToKey v16 dest)) = unat v16"
    by (simp add: AppendUInt16ToKey_def Store16_value)
  have w32: "be_to_nat (drop (length dest) (AppendUInt32ToKey v32 dest)) = unat v32"
    by (simp add: AppendUInt32ToKey_def Store32_value)
  have w64: "be_to_nat (drop (length dest) (AppendUInt64ToKey v64 dest)) = unat v64"
    by (simp add: AppendUInt64ToKey_def Store64_value)
  have o16: "a16 < b16 \<longrightarrow> bytes_less (AppendUInt16ToKey a16 dest) (AppendUInt16ToKey b16 dest)"
    by (simp add: AppendUInt16ToKey_def bytes_less_append Store16_less)
  have o32: "a32 < b32 \<longrightarrow> bytes_less (AppendUInt32ToKey a32 dest) (AppendUInt32ToKey b32 dest)"
    by (simp add: AppendUInt32ToKey_def bytes_less_append Store32_less)
  have o64: "a64 < b64 \<longrightarrow> bytes_less (AppendUInt64ToKey a64 dest) (AppendUInt64ToKey b64 dest)"
    by (simp add: AppendUInt64ToKey_def bytes_less_append Store64_less)
  have s16: "take (length dest) (AppendUInt16ToKey v16 dest) = dest \<and>
      length (AppendUInt16ToKey v16 dest) = length dest + 2 \<and>
      drop (length dest) (AppendUInt16ToKey v16 dest) = [ucast (drop_bit 8 v16), ucast v16]"
    by (simp add: AppendUInt16ToKey_def BigEndian_Store16_def)
  have s32: "take (length dest) (AppendUInt32ToKey v32 dest) = dest \<and>
      length (AppendUInt32ToKey v32 dest) = length dest + 4 \<and>
      drop (length dest) (AppendUInt32ToKey v32 dest) =
        [ucast (drop_bit 24 v32), ucast (drop_bit 16 v32), ucast (drop_bit 8 v32), ucast v32]"
    by (simp add: AppendUInt32ToKey_def BigEndian_Store32_def)
  have s64: "take (length dest) (AppendUInt64ToKey v64 dest) = dest \<and>
      length (AppendUInt64ToKey v64 dest) = length dest + 8 \<and>
      drop (length dest) (AppendUInt64ToKey v64 dest) =
        [ucast (drop_bit 56 v64), ucast (drop_bit 48 v64), ucast (drop_bit 40 v64),
         ucast (drop_bit 32 v64), ucast (drop_bit 24 v64), ucast (drop_bit 16 v64),
         ucast (drop_bit 8 v64), ucast v64]"
    by (simp add: AppendUInt64ToKey_def BigEndian_Store64_def)
  show ?thesis
    using w16 w32 w64 o16 o32 o64 s16 s32 s64 by blast
qed

theorem C9_big_endian_append_witness:
  "(255 :: 16 word) < 256 \<and>
   bytes_less (AppendUInt16ToKey 255 [7]) (AppendUInt16ToKey 256 [7]) \<and>
   (65535 :: 32 word) < 65536 \<and>
   bytes_less (AppendUInt32ToKey 65535 [7]) (AppendUInt32ToKey 65536 [7]) \<and>
   (4294967295 :: 64 word) < 4294967296 \<and>
   bytes_less (AppendUInt64ToKey 4294967295 [7]) (AppendUInt64ToKey 4294967296 [7])"
proof -
  have h: "(255 :: 16 word) < 256" "(65535 :: 32 word) < 65536"
    "(4294967295 :: 64 word) < 4294967296"
    by simp_all
  show ?thesis
    using h C9_big_endian_append [of "[7]" 0 255 256 0 65535 65536 0 4294967295 4294967296]
    by blast
qed

section \<open>Zero-encoded strings decode to themselves\<close>

text \<open>C7: for every string \<open>s\<close>, decoding the escaped string followed by the two-byte
  terminator gives \<open>s\<close> back and consumes the whole input (and whatever follows the
  terminator is left in the slice); the string \<open>a 0x00 b\<close> is encoded as
  \<open>a 0x00 0x01 b 0x00 0x00\<close>, and that decodes to \<open>a 0x00 b\<close> with nothing left.\<close>

theorem C7_zero_encode_roundtrip:
  "DecodeZeroEncodedStr (ZeroEncodeStr s) = Inr (s, []) \<and>
   DecodeZeroEncodedStr_string (ZeroEncodeStr s) = Some s \<and>
   DecodeZeroEncodedStr (ZeroEncodeStr s @ rest) = Inr (s, rest) \<and>
   ZeroEncodeStr [0x61, 0, 0x62] = [0x61, 0, 1, 0x62, 0, 0] \<and>
   DecodeZeroEncodedStr [0x61, 0, 1, 0x62, 0, 0] = Inr ([0x61, 0, 0x62], [])"
  by (simp add: ZeroEncodeStr_def ZeroEncodeAndAppendStrToKey_def
      TerminateZeroEncodedKeyStr_def AppendZeroEncodedStrToKey_def decode_encode
      DecodeZeroEncodedStr_string_def push_front_def)

theorem C7_zero_encode_roundtrip_witness:
  "DecodeZeroEncodedStr (ZeroEncodeStr [0, 0, 1, 0]) = Inr ([0, 0, 1, 0], []) \<and>
   DecodeZeroEncodedStr_string (ZeroEncodeStr [0, 0, 1, 0]) = Some [0, 0, 1, 0]"
  using C7_zero_encode_roundtrip [of "[0, 0, 1, 0]" "[]"] by blast

end
